theory Spec2Isabelle
  imports Main "HOL-Library.Word" "HOL-Library.Sublist" "HOL-Library.AList"
begin

section \<open>JavaScript strings\<close>

text \<open>
  A JavaScript string is a sequence of UTF-16 code units. Literals of the source are
  written \<open>js ''...''\<close>. The helpers below are the \<open>String.prototype\<close> methods the
  source calls, with a string (never a regular expression) as the pattern.
\<close>

type_synonym jstring = "16 word list"

definition js :: "string \<Rightarrow> jstring" where
  "js s = map of_char s"

text \<open>\<open>s.includes(p)\<close>: some suffix of \<open>s\<close> starts with \<open>p\<close>.\<close>

fun str_includes :: "jstring \<Rightarrow> jstring \<Rightarrow> bool" where
  "str_includes [] p = (p = [])"
| "str_includes (c # cs) p = (prefix p (c # cs) \<or> str_includes cs p)"

text \<open>\<open>s.indexOf(p)\<close>: the first position where \<open>p\<close> starts, or \<open>-1\<close>.\<close>

fun indexOf :: "jstring \<Rightarrow> jstring \<Rightarrow> int" where
  "indexOf [] p = (if p = [] then 0 else -1)"
| "indexOf (c # cs) p =
     (if prefix p (c # cs) then 0
      else (let r = indexOf cs p in if r < 0 then -1 else r + 1))"

text \<open>\<open>s.substring(i)\<close> and \<open>s.substring(0, i)\<close> for \<open>i \<ge> 0\<close>.\<close>

definition substring_from :: "jstring \<Rightarrow> int \<Rightarrow> jstring" where
  "substring_from s i = drop (nat i) s"

definition substring_to :: "jstring \<Rightarrow> int \<Rightarrow> jstring" where
  "substring_to s i = take (nat i) s"

text \<open>
  \<open>s.replace(p, r)\<close> with a string pattern: only the first occurrence is replaced
  (\<open>r\<close> has no \<open>$\<close> pattern in the source).
\<close>

definition replace_first :: "jstring \<Rightarrow> jstring \<Rightarrow> jstring \<Rightarrow> jstring" where
  "replace_first s p r =
     (let i = indexOf s p
      in if i < 0 then s
         else substring_to s i @ r @ substring_from s (i + int (length p)))"

text \<open>\<open>xs.join(sep)\<close>.\<close>

fun join :: "jstring \<Rightarrow> jstring list \<Rightarrow> jstring" where
  "join sep [] = []"
| "join sep [x] = x"
| "join sep (x # y # ys) = x @ sep @ join sep (y # ys)"

text \<open>
  The code units \<open>String.prototype.trim\<close> removes (ECMAScript WhiteSpace and
  LineTerminator), and the ones \<open>.\<close> does not match in a regular expression
  (LineTerminator).
\<close>

definition is_line_terminator :: "16 word \<Rightarrow> bool" where
  "is_line_terminator c = (c = 0x0A \<or> c = 0x0D \<or> c = 0x2028 \<or> c = 0x2029)"

definition is_white_space :: "16 word \<Rightarrow> bool" where
  "is_white_space c =
     (c = 0x09 \<or> c = 0x0B \<or> c = 0x0C \<or> c = 0x20 \<or> c = 0xA0 \<or> c = 0x1680
      \<or> (0x2000 \<le> c \<and> c \<le> 0x200A) \<or> c = 0x202F \<or> c = 0x205F \<or> c = 0x3000
      \<or> c = 0xFEFF \<or> is_line_terminator c)"

definition trim :: "jstring \<Rightarrow> jstring" where
  "trim s = rev (dropWhile is_white_space (rev (dropWhile is_white_space s)))"

section \<open>Output formatting (\<open>formatOutput\<close>)\<close>

text \<open>\<open>.replace(/\u0001|\u0002|\u0000/g, '')\<close>\<close>

definition stripControl :: "jstring \<Rightarrow> jstring" where
  "stripControl s = filter (\<lambda>c. \<not> (c = 0x01 \<or> c = 0x02 \<or> c = 0x00)) s"

definition pipWarning :: jstring where
  \<open>pipWarning = js ''WARNING: Running pip as the 'root' user''\<close>

text \<open>
  \<open>.replace(/WARNING: Running pip as the 'root' user.*\n/g, '')\<close>. At a position
  where the literal starts, \<open>.*\<close> runs to the next line terminator; the match
  succeeds when that terminator is \<open>\n\<close> (backtracking cannot help: the code units
  \<open>.*\<close> gives back are not line terminators) and the scan goes on after it.
  Elsewhere the code unit is kept and the scan moves one position on.
\<close>

function stripPipWarnings :: "jstring \<Rightarrow> jstring" where
  "stripPipWarnings [] = []"
| "stripPipWarnings (c # cs) =
     (if prefix pipWarning (c # cs) then
        (case dropWhile (\<lambda>d. \<not> is_line_terminator d) (drop (length pipWarning) (c # cs)) of
           [] \<Rightarrow> c # stripPipWarnings cs
         | t # rest \<Rightarrow> if t = 0x0A then stripPipWarnings rest else c # stripPipWarnings cs)
      else c # stripPipWarnings cs)"
  by pat_completeness auto
termination
proof (relation "measure length")
  fix c :: "16 word" and cs t rest
  assume "dropWhile (\<lambda>d. \<not> is_line_terminator d) (drop (length pipWarning) (c # cs)) = t # rest"
  then have "length (t # rest) \<le> length (drop (length pipWarning) (c # cs))"
    by (metis length_dropWhile_le)
  then show "(rest, c # cs) \<in> measure length" by simp
qed simp_all

definition logPrefix :: jstring where
  "logPrefix = js ''INFO:root:''"

text \<open>
  \<open>.match(/INFO:root:.*$/gm)\<close>: every match starts where the literal starts and
  runs to the end of the line (with the \<open>m\<close> flag \<open>$\<close> holds before a line
  terminator and at the end of the text); the search goes on after the match.
\<close>

function matchLogLines :: "jstring \<Rightarrow> jstring list" where
  "matchLogLines [] = []"
| "matchLogLines (c # cs) =
     (if prefix logPrefix (c # cs) then
        takeWhile (\<lambda>d. \<not> is_line_terminator d) (c # cs)
          # matchLogLines (dropWhile (\<lambda>d. \<not> is_line_terminator d) (c # cs))
      else matchLogLines cs)"
  by pat_completeness auto
termination
proof (relation "measure length")
  fix c :: "16 word" and cs
  assume p: "prefix logPrefix (c # cs)"
  have "\<not> is_line_terminator c"
    using p by (auto simp: logPrefix_def js_def is_line_terminator_def prefix_def)
  then have "dropWhile (\<lambda>d. \<not> is_line_terminator d) (c # cs)
             = dropWhile (\<lambda>d. \<not> is_line_terminator d) cs" by simp
  then show "(dropWhile (\<lambda>d. \<not> is_line_terminator d) (c # cs), c # cs) \<in> measure length"
    by (simp add: length_dropWhile_le le_imp_less_Suc)
qed simp_all

definition collapseLogLines :: "jstring \<Rightarrow> jstring" where
  "collapseLogLines formattedOutput =
     (let logLines = matchLogLines formattedOutput
      in if length logLines > 0
         then join [0x0A] (map (\<lambda>line. replace_first line logPrefix []) logLines)
         else formattedOutput)"

definition timeoutSentinel :: jstring where
  "timeoutSentinel = js ''[Timeout]''"

definition timeoutNotice :: jstring where
  "timeoutNotice = js ''Execution timed out after 10 seconds.\<newline>''"

definition handleTimeout :: "jstring \<Rightarrow> jstring" where
  "handleTimeout formattedOutput =
     (if str_includes formattedOutput timeoutSentinel
      then timeoutNotice @ formattedOutput else formattedOutput)"

definition originKey :: jstring where
  \<open>originKey = js ''"origin"''\<close>

definition redactedOrigin :: jstring where
  \<open>redactedOrigin = js ''{ "origin": "[IP address]" }''\<close>

definition fixJson :: "jstring \<Rightarrow> jstring" where
  "fixJson formattedOutput =
     (if str_includes formattedOutput (js ''{'') \<and> \<not> str_includes formattedOutput (js ''}'')
      then (let jsonStart = indexOf formattedOutput (js ''{'')
            in if jsonStart \<ge> 0
               then (let jsonPart = substring_from formattedOutput jsonStart
                     in if str_includes jsonPart originKey
                        then substring_to formattedOutput jsonStart @ redactedOrigin
                        else formattedOutput)
               else formattedOutput)
      else formattedOutput)"

definition formatOutput :: "jstring \<Rightarrow> jstring" where
  "formatOutput output =
     trim (fixJson (handleTimeout (collapseLogLines (stripPipWarnings (stripControl output)))))"

section \<open>Scenario injection (\<open>wrapUserCode\<close>)\<close>

text \<open>
  The scenario is the configuration object of the request body. Every field is optional;
  the numeric fields are integers, the flags booleans, \<open>upstream\<close> a string (the types
  the README gives them). The source tests a field with \<open>if (scenario.f)\<close>, which
  holds for a number other than \<open>0\<close>, for \<open>true\<close> and for a non-empty string.
\<close>

record scenario =
  networkLatencyMs :: "int option"
  bandwidthKbps :: "int option"
  timeoutMs :: "int option"
  upstream :: "jstring option"
  simulateCrash :: "bool option"
  simulateHighCpu :: "bool option"
  simulateMemoryLeak :: "bool option"
  artificialDelayMs :: "int option"

definition truthyNum :: "int option \<Rightarrow> bool" where
  "truthyNum v = (case v of None \<Rightarrow> False | Some n \<Rightarrow> n \<noteq> 0)"

definition truthyBool :: "bool option \<Rightarrow> bool" where
  "truthyBool v = (case v of None \<Rightarrow> False | Some b \<Rightarrow> b)"

definition truthyStr :: "jstring option \<Rightarrow> bool" where
  "truthyStr v = (case v of None \<Rightarrow> False | Some s \<Rightarrow> s \<noteq> [])"

text \<open>The scenario \<open>{}\<close>.\<close>

definition emptyScenario :: scenario where
  "emptyScenario =
     \<lparr>networkLatencyMs = None, bandwidthKbps = None, timeoutMs = None, upstream = None,
      simulateCrash = None, simulateHighCpu = None, simulateMemoryLeak = None,
      artificialDelayMs = None\<rparr>"

text \<open>
  Numbers inside template literals. \<open>numberToString\<close> is \<open>${n}\<close> for an integer;
  \<open>millisToString\<close> is \<open>${n / 1000}\<close>: the decimal expansion of the quotient without
  trailing zeros, which is what JavaScript prints for an integer of magnitude below
  \<open>10^15\<close>.
\<close>

fun digitsOf :: "nat \<Rightarrow> jstring" where
  "digitsOf n =
     (if n < 10 then [of_nat (48 + n)]
      else digitsOf (n div 10) @ [of_nat (48 + n mod 10)])"

declare digitsOf.simps [simp del]

definition numberToString :: "int \<Rightarrow> jstring" where
  "numberToString n = (if n < 0 then js ''-'' @ digitsOf (nat (- n)) else digitsOf (nat n))"

definition millisToString :: "int \<Rightarrow> jstring" where
  "millisToString n =
     (let a = nat \<bar>n\<bar>;
          frac = [of_nat (48 + a mod 1000 div 100), of_nat (48 + a mod 100 div 10),
                  of_nat (48 + a mod 10)];
          shown = rev (dropWhile (\<lambda>d. d = 48) (rev frac))
      in (if n < 0 then js ''-'' else []) @ digitsOf (a div 1000)
         @ (if shown = [] then [] else js ''.'' @ shown))"

definition pyDelay :: "int \<Rightarrow> jstring" where
  \<open>pyDelay n = js ''import time\<newline>print("Simulating artificial delay...")\<newline>time.sleep(''
     @ millisToString n @ js '')\<newline>''\<close>

definition jsDelay :: "int \<Rightarrow> jstring" where
  \<open>jsDelay n = js ''console.log("Simulating artificial delay...");\<newline>await new Promise(r => setTimeout(r, ''
     @ numberToString n @ js ''));\<newline>''\<close>

definition pyCrash :: jstring where
  \<open>pyCrash = js ''\<newline>import sys\<newline>sys.exit(1)  # Simulate crash''\<close>

definition jsCrash :: jstring where
  \<open>jsCrash = js ''\<newline>process.exit(1); // Simulate crash''\<close>

definition pyHighCpu :: jstring where
  \<open>pyHighCpu = js ''import threading\<newline>import time\<newline>def cpu_load():\<newline>    while True:\<newline>        pass\<newline>threading.Thread(target=cpu_load, daemon=True).start()\<newline>print("Simulating high CPU load...")\<newline>''\<close>

definition jsHighCpu :: jstring where
  \<open>jsHighCpu = js ''console.log("Simulating high CPU load...");\<newline>function cpuLoad() { while(true) {} }\<newline>setTimeout(cpuLoad, 0);\<newline>''\<close>

definition pyMemoryLeak :: jstring where
  \<open>pyMemoryLeak = js ''print("Simulating memory leak...")\<newline>_leak = []\<newline>for _ in range(10**7):\<newline>    _leak.append('leak')\<newline>''\<close>

definition jsMemoryLeak :: jstring where
  \<open>jsMemoryLeak = js ''console.log("Simulating memory leak...");\<newline>let leak = [];\<newline>for(let i=0; i<1e7; i++) { leak.push('leak'); }\<newline>''\<close>

definition pyInstallRequests :: jstring where
  \<open>pyInstallRequests = js ''import os\<newline>os.system('pip install --quiet requests')\<newline>''\<close>

definition wrapUserCode :: "jstring \<Rightarrow> scenario \<Rightarrow> jstring \<Rightarrow> jstring" where
  "wrapUserCode code scenario language =
     (let pre = []; post = [];
          pre = (case artificialDelayMs scenario of
                   None \<Rightarrow> pre
                 | Some n \<Rightarrow>
                     if n \<noteq> 0 then
                       (if language = js ''python'' then pre @ pyDelay n
                        else if language = js ''javascript'' \<or> language = js ''node''
                        then pre @ jsDelay n else pre)
                     else pre);
          post = (if truthyBool (simulateCrash scenario) then
                    (if language = js ''python'' then post @ pyCrash
                     else if language = js ''javascript'' \<or> language = js ''node''
                     then post @ jsCrash else post)
                  else post);
          pre = (if truthyBool (simulateHighCpu scenario) then
                   (if language = js ''python'' then pre @ pyHighCpu
                    else if language = js ''javascript'' \<or> language = js ''node''
                    then pre @ jsHighCpu else pre)
                 else pre);
          pre = (if truthyBool (simulateMemoryLeak scenario) then
                   (if language = js ''python'' then pre @ pyMemoryLeak
                    else if language = js ''javascript'' \<or> language = js ''node''
                    then pre @ jsMemoryLeak else pre)
                 else pre);
          pre = (if language = js ''python'' \<and> str_includes code (js ''import requests'')
                 then pre @ pyInstallRequests else pre)
      in pre @ code @ post)"

section \<open>The environment of a job\<close>

text \<open>
  \<open>runJob\<close> talks to the file system, to Toxiproxy and to Docker. Every call it makes
  is recorded, in the order the calls are issued, and the environment says which calls
  throw (with the message of the error) and in which order the two pending continuations
  of the run phase are resumed.
\<close>

datatype toxicType = Latency | Bandwidth | Timeout

text \<open>
  The calls, with the arguments that vary: \<open>WriteFile dir name content\<close>,
  \<open>DeleteProxy name\<close>, \<open>CreateProxy name listen upstream\<close>,
  \<open>AddToxic proxy type value\<close>, \<open>CreateContainer image cmd env binds\<close> (the limits of
  \<open>HostConfig\<close> are constants of the source and are left out), \<open>SetTimeout ms\<close>.
\<close>

datatype call =
    DirSync
  | WriteFile jstring jstring jstring
  | DeleteProxy jstring
  | CreateProxy jstring jstring jstring
  | AddToxic jstring toxicType int
  | CreateContainer jstring "jstring list" "jstring list" "jstring list"
  | ContainerAttach
  | ContainerStart
  | SetTimeout int
  | ContainerWait
  | ContainerKill
  | ClearTimeout
  | RemoveCallback

text \<open>
  After \<open>container.start()\<close> the source arms a 10 s timer and awaits
  \<open>container.wait()\<close>; the timer callback in turn awaits \<open>container.kill()\<close>.
  \<^item> \<open>WaitBeforeTimer\<close>: \<open>wait()\<close> settles before the timer fires;
  \<^item> \<open>KillBeforeWait\<close>: the timer fires and \<open>kill()\<close> settles before \<open>wait()\<close> does;
  \<^item> \<open>WaitBeforeKill\<close>: the timer fires and \<open>wait()\<close> settles while \<open>kill()\<close> is
    still pending.
\<close>

datatype schedule = WaitBeforeTimer | KillBeforeWait | WaitBeforeKill

record env =
  tmpName :: jstring
  dirSync_throws :: "jstring option"
  writeFile_throws :: "jstring option"
  createProxy_throws :: "jstring option"
  addToxic_throws :: "toxicType \<Rightarrow> jstring option"
  createContainer_throws :: "jstring option"
  attach_throws :: "jstring option"
  start_throws :: "jstring option"
  order :: schedule
  captured :: jstring
  wait_result :: "jstring + int"
  kill_throws :: "jstring option"
  removeCallback_throws :: "jstring option"

text \<open>
  \<open>captured\<close> is the text the \<open>data\<close> handler has accumulated in \<open>output\<close> when
  \<open>output\<close> is first read. \<open>wait_result\<close> is the error \<open>container.wait()\<close> throws or
  the \<open>StatusCode\<close> it resolves with (the exit code of the sandboxed program). Every
  awaited call is taken to settle.
\<close>

text \<open>A sequence of calls that stops at the first one that throws.\<close>

type_synonym 'a io = "call list \<times> (jstring + 'a)"

definition return_io :: "'a \<Rightarrow> 'a io" where
  "return_io x = ([], Inr x)"

definition call_io :: "call \<Rightarrow> jstring option \<Rightarrow> unit io" where
  "call_io c throws = ([c], case throws of Some m \<Rightarrow> Inl m | None \<Rightarrow> Inr ())"

definition bind_io :: "'a io \<Rightarrow> ('a \<Rightarrow> 'b io) \<Rightarrow> 'b io" where
  "bind_io m f =
     (case m of
        (cs, Inl e) \<Rightarrow> (cs, Inl e)
      | (cs, Inr x) \<Rightarrow> (case f x of (cs', r) \<Rightarrow> (cs @ cs', r)))"

section \<open>Network scenario (\<open>setupNetworkScenario\<close>, \<open>cleanupNetworkScenario\<close>)\<close>

record net =
  proxyName :: jstring
  host :: jstring
  port :: int

text \<open>\<open>if (v) { await proxy.addToxic({type, attributes: {...: v}}) }\<close>\<close>

definition addToxicIf :: "env \<Rightarrow> jstring \<Rightarrow> toxicType \<Rightarrow> int option \<Rightarrow> unit io" where
  "addToxicIf e name ty v =
     (case v of
        None \<Rightarrow> return_io ()
      | Some n \<Rightarrow> if n \<noteq> 0 then call_io (AddToxic name ty n) (addToxic_throws e ty)
                  else return_io ())"

text \<open>The first \<open>deleteProxy\<close> is inside \<open>try { } catch {}\<close>: its error is dropped.\<close>

definition setupNetworkScenario :: "env \<Rightarrow> jstring \<Rightarrow> scenario \<Rightarrow> net io" where
  "setupNetworkScenario e jobId scenario =
     (let proxyName = js ''sandbox_proxy_'' @ jobId;
          listenPort = 8666;
          upstream = (case upstream scenario of
                        None \<Rightarrow> js ''httpbin.org:80''
                      | Some u \<Rightarrow> if u \<noteq> [] then u else js ''httpbin.org:80'')
      in bind_io (call_io (DeleteProxy proxyName) None) (\<lambda>_.
         bind_io (call_io (CreateProxy proxyName (js ''0.0.0.0:'' @ numberToString listenPort)
                             upstream) (createProxy_throws e)) (\<lambda>_.
         bind_io (addToxicIf e proxyName Latency (networkLatencyMs scenario)) (\<lambda>_.
         bind_io (addToxicIf e proxyName Bandwidth (bandwidthKbps scenario)) (\<lambda>_.
         bind_io (addToxicIf e proxyName Timeout (timeoutMs scenario)) (\<lambda>_.
         return_io \<lparr>proxyName = proxyName, host = js ''host.docker.internal'',
                    port = listenPort\<rparr>))))))"

definition cleanupNetworkScenario :: "jstring \<Rightarrow> call list" where
  "cleanupNetworkScenario name = [DeleteProxy name]"

section \<open>Running a job (\<open>runJob\<close>)\<close>

datatype status = Queued | Running | Completed | Failed | Cancelled

datatype jobResult = Output jstring | Error jstring

record job =
  job_id :: jstring
  status :: status
  language :: jstring
  code :: jstring
  scenario :: scenario
  logs :: "(int \<times> jstring) list"
  result :: "jobResult option"
  createdAt :: int
  completedAt :: "int option"

text \<open>
  How the promise returned by \<open>runJob\<close> settles: \<open>resolve({output, success})\<close> or a
  rejection with the error's message.
\<close>

datatype outcome = Resolved jstring bool | Rejected jstring

text \<open>
  The state of one invocation: the calls issued so far, the variable \<open>output\<close>, and the
  promise (\<open>None\<close> while pending). A promise settles once: later calls of \<open>resolve\<close>
  and \<open>reject\<close> have no effect.
\<close>

record exec =
  trace :: "call list"
  "output" :: jstring
  promise :: "outcome option"

definition settle :: "outcome \<Rightarrow> exec \<Rightarrow> exec" where
  "settle r s = (case promise s of None \<Rightarrow> s\<lparr>promise := Some r\<rparr> | Some _ \<Rightarrow> s)"

definition issue :: "call list \<Rightarrow> exec \<Rightarrow> exec" where
  "issue cs s = s\<lparr>trace := trace s @ cs\<rparr>"

text \<open>
  The timer callback
  \<^verbatim>\<open>async () => { await container.kill(); output += '\n[Timeout]';
                 resolve({ output: formatOutput(output), success: false }); }\<close>
  in two halves: up to the \<open>await\<close>, and from it on. A \<open>kill()\<close> that throws ends the
  callback (nothing catches the error).
\<close>

definition timerFires :: "exec \<Rightarrow> exec" where
  "timerFires s = issue [ContainerKill] s"

definition afterKill :: "env \<Rightarrow> exec \<Rightarrow> exec" where
  "afterKill e s =
     (case kill_throws e of
        Some m \<Rightarrow> s
      | None \<Rightarrow>
          (let s = s\<lparr>output := output s @ js ''\<newline>[Timeout]''\<rparr>
           in settle (Resolved (formatOutput (output s)) False) s))"

text \<open>
  The continuation of \<open>await container.wait()\<close>: \<open>clearTimeout\<close> and \<open>resolve\<close> with
  \<open>success: true\<close>, or the \<open>catch\<close> block when \<open>wait()\<close> throws.
\<close>

definition afterWait :: "env \<Rightarrow> exec \<Rightarrow> exec" where
  "afterWait e s =
     (case wait_result e of
        Inr statusCode \<Rightarrow>
          settle (Resolved (formatOutput (output s)) True) (issue [ClearTimeout] s)
      | Inl m \<Rightarrow> settle (Rejected m) s)"

text \<open>
  The \<open>finally\<close> block. If \<open>tmpDir.removeCallback()\<close> throws, the proxy is not torn
  down; the error of \<open>deleteProxy\<close> is dropped by \<open>cleanupNetworkScenario\<close>.
\<close>

definition cleanup :: "env \<Rightarrow> jstring option \<Rightarrow> exec \<Rightarrow> exec" where
  "cleanup e proxy s =
     (let s = issue [RemoveCallback] s
      in case removeCallback_throws e of
           Some m \<Rightarrow> s
         | None \<Rightarrow> (case proxy of
                      None \<Rightarrow> s
                    | Some name \<Rightarrow> issue (cleanupNetworkScenario name) s))"

text \<open>
  From \<open>setTimeout\<close> to the end of the executor, once the container has started. When
  \<open>wait()\<close> throws before the timer fires, \<open>clearTimeout\<close> is skipped and the timer
  callback still runs later.
\<close>

definition runPhase :: "env \<Rightarrow> jstring option \<Rightarrow> exec \<Rightarrow> exec" where
  "runPhase e proxy s0 =
     (let s = issue [SetTimeout 10000, ContainerWait] (s0\<lparr>output := output s0 @ captured e\<rparr>)
      in case order e of
           WaitBeforeTimer \<Rightarrow>
             (let s = cleanup e proxy (afterWait e s)
              in case wait_result e of
                   Inr _ \<Rightarrow> s
                 | Inl _ \<Rightarrow> afterKill e (timerFires s))
         | KillBeforeWait \<Rightarrow> cleanup e proxy (afterWait e (afterKill e (timerFires s)))
         | WaitBeforeKill \<Rightarrow> afterKill e (cleanup e proxy (afterWait e (timerFires s))))"

text \<open>
  The executor of \<open>new Promise(async (resolve, reject) => { try ... catch ... finally })\<close>.
\<close>

definition executor ::
  "env \<Rightarrow> jstring \<Rightarrow> jstring list \<Rightarrow> jstring list \<Rightarrow> jstring option \<Rightarrow> exec \<Rightarrow> exec" where
  "executor e dockerImage runCmd proxyEnv proxy s =
     (case bind_io (call_io (CreateContainer dockerImage runCmd proxyEnv
                               [tmpName e @ js '':/code:ro'']) (createContainer_throws e)) (\<lambda>_.
           bind_io (call_io ContainerAttach (attach_throws e)) (\<lambda>_.
           call_io ContainerStart (start_throws e))) of
        (cs, Inl err) \<Rightarrow> cleanup e proxy (settle (Rejected err) (issue cs s))
      | (cs, Inr _) \<Rightarrow> runPhase e proxy (issue cs s))"

text \<open>
  \<open>runJob\<close>. A \<open>throw\<close> before the promise is built rejects the promise the
  \<open>async\<close> function returns. The file is written under \<open>tmpDir.name\<close>; the call
  records the directory and the file name apart. The scenario is an object, so the
  conjunct \<open>job.scenario &&\<close> of the proxy test holds.
\<close>

definition runJob :: "env \<Rightarrow> job \<Rightarrow> exec" where
  "runJob e job =
     (let s = \<lparr>trace = [DirSync], output = [], promise = None\<rparr>
      in case dirSync_throws e of
           Some m \<Rightarrow> settle (Rejected m) s
         | None \<Rightarrow>
      (let userCode = wrapUserCode (code job) (scenario job) (language job)
       in case (if language job = js ''python''
                then Some (js ''python-sandbox:latest'', js ''usercode.py'',
                           [js ''python'', js ''/code/usercode.py''])
                else if language job = js ''javascript'' \<or> language job = js ''node''
                then Some (js ''node:20-slim'', js ''usercode.js'',
                           [js ''node'', js ''/code/usercode.js''])
                else None) of
            None \<Rightarrow> settle (Rejected (js ''Unsupported language'')) s
          | Some (dockerImage, codeFile, runCmd) \<Rightarrow>
      (let s = issue [WriteFile (tmpName e) codeFile userCode] s
       in case writeFile_throws e of
            Some m \<Rightarrow> settle (Rejected m) s
          | None \<Rightarrow>
      (if truthyNum (networkLatencyMs (scenario job)) \<or> truthyNum (bandwidthKbps (scenario job))
          \<or> truthyNum (timeoutMs (scenario job)) \<or> truthyStr (upstream (scenario job))
       then (case setupNetworkScenario e (job_id job) (scenario job) of
               (cs, Inl err) \<Rightarrow> settle (Rejected err) (issue cs s)
             | (cs, Inr net) \<Rightarrow>
                 executor e dockerImage runCmd
                   [js ''HTTP_PROXY=http://'' @ host net @ js '':'' @ numberToString (port net),
                    js ''HTTPS_PROXY=http://'' @ host net @ js '':'' @ numberToString (port net)]
                   (Some (proxyName net)) (issue cs s))
       else executor e dockerImage runCmd [] None s))))"

section \<open>The job store and its routes\<close>

text \<open>
  \<open>jobs\<close> is an object used as a dictionary: an association list in insertion order,
  read with \<open>map_of\<close>, written with \<open>AList.update\<close> and \<open>AList.delete\<close>. The clock
  (\<open>new Date()\<close>, \<open>Date.now()\<close>, in milliseconds) and the fresh identifier
  (\<open>uuidv4()\<close>) are arguments. A log line is kept as the pair of its time stamp and its
  message.
\<close>

type_synonym jobs = "(jstring \<times> job) list"

datatype response = JobStatus jstring status | ErrorResponse nat jstring

definition modifyJob :: "jstring \<Rightarrow> (job \<Rightarrow> job) \<Rightarrow> jobs \<Rightarrow> jobs" where
  "modifyJob jobId f jobs =
     (case map_of jobs jobId of None \<Rightarrow> jobs | Some j \<Rightarrow> AList.update jobId (f j) jobs)"

definition addJobLog :: "int \<Rightarrow> jstring \<Rightarrow> jstring \<Rightarrow> jobs \<Rightarrow> jobs" where
  "addJobLog now jobId message jobs =
     modifyJob jobId (\<lambda>j. j\<lparr>logs := logs j @ [(now, message)]\<rparr>) jobs"

text \<open>
  \<open>POST /run\<close>, up to the first \<open>await\<close>: the record is created as \<open>queued\<close>, the
  response is sent, and the asynchronous flow sets \<open>running\<close> before it awaits
  \<open>runJob\<close>. A missing body field is \<open>None\<close>.
\<close>

definition post_run ::
  "int \<Rightarrow> jstring \<Rightarrow> jstring option \<Rightarrow> jstring option \<Rightarrow> scenario option \<Rightarrow> jobs
     \<Rightarrow> response \<times> jobs" where
  "post_run now jobId lang src scen jobs =
     (case (lang, src, scen) of
        (Some l, Some c, Some sc) \<Rightarrow>
          if l = [] \<or> c = [] then (ErrorResponse 400 (js ''Missing required fields.''), jobs)
          else
            (let jobs = AList.update jobId
                   \<lparr>job_id = jobId, status = Queued, language = l, code = c, scenario = sc,
                    logs = [], result = None, createdAt = now, completedAt = None\<rparr> jobs;
                 jobs = addJobLog now jobId (js ''Job created and queued.'') jobs;
                 res = JobStatus jobId Queued;
                 jobs = modifyJob jobId (\<lambda>j. j\<lparr>status := Running\<rparr>) jobs;
                 jobs = addJobLog now jobId (js ''Job execution started.'') jobs
             in (res, jobs))
      | _ \<Rightarrow> (ErrorResponse 400 (js ''Missing required fields.''), jobs))"

text \<open>
  The rest of the asynchronous flow, resumed when the promise of \<open>runJob\<close> settles. If
  the record is gone, the first assignment throws a \<open>TypeError\<close>, the \<open>catch\<close> block
  throws it again, and the store is left as it is.
\<close>

definition flowSettled :: "int \<Rightarrow> jstring \<Rightarrow> outcome \<Rightarrow> jobs \<Rightarrow> jobs" where
  "flowSettled now jobId r jobs =
     (case map_of jobs jobId of
        None \<Rightarrow> jobs
      | Some _ \<Rightarrow>
         (case r of
            Resolved out success \<Rightarrow>
              addJobLog now jobId (js ''Execution completed.'')
                (modifyJob jobId (\<lambda>j. j\<lparr>status := Completed, completedAt := Some now,
                                          result := Some (Output out)\<rparr>) jobs)
          | Rejected message \<Rightarrow>
              addJobLog now jobId (js ''Execution failed: '' @ message)
                (modifyJob jobId (\<lambda>j. j\<lparr>status := Failed, completedAt := Some now,
                                          result := Some (Error message)\<rparr>) jobs)))"

text \<open>\<open>POST /cancel/:jobId\<close>\<close>

definition cancel :: "int \<Rightarrow> jstring \<Rightarrow> jobs \<Rightarrow> response \<times> jobs" where
  "cancel now jobId jobs =
     (case map_of jobs jobId of
        None \<Rightarrow> (ErrorResponse 404 (js ''Job not found.''), jobs)
      | Some job \<Rightarrow>
          if status job \<noteq> Queued \<and> status job \<noteq> Running
          then (ErrorResponse 400 (js ''Job is not running or queued.''), jobs)
          else (JobStatus jobId Cancelled,
                addJobLog now jobId (js ''Job was cancelled by user.'')
                  (modifyJob jobId (\<lambda>j. j\<lparr>status := Cancelled, completedAt := Some now\<rparr>)
                     jobs)))"

text \<open>
  The periodic cleanup: the callback of \<open>setInterval\<close>, and its period. The callback
  visits the keys the store has when it starts.
\<close>

definition sweepPeriodMs :: int where
  "sweepPeriodMs = 3600 * 1000"

definition sweepOne :: "int \<Rightarrow> jstring \<Rightarrow> jobs \<Rightarrow> jobs" where
  "sweepOne now jobId jobs =
     (case map_of jobs jobId of
        None \<Rightarrow> jobs
      | Some job \<Rightarrow>
          (case completedAt job of
             None \<Rightarrow> jobs
           | Some t \<Rightarrow> if now - t > 3600 * 1000 then AList.delete jobId jobs else jobs))"

definition sweep :: "int \<Rightarrow> jobs \<Rightarrow> jobs" where
  "sweep now jobs = fold (sweepOne now) (map fst jobs) jobs"

section \<open>Reading a trace\<close>

definition isAddToxic :: "call \<Rightarrow> bool" where
  "isAddToxic c = (case c of AddToxic _ _ _ \<Rightarrow> True | _ \<Rightarrow> False)"

definition isCreateProxy :: "call \<Rightarrow> bool" where
  "isCreateProxy c = (case c of CreateProxy _ _ _ \<Rightarrow> True | _ \<Rightarrow> False)"

text \<open>
  The value a numeric scenario field asks for: none when the field is absent or \<open>0\<close>.
\<close>

definition requested :: "int option \<Rightarrow> int list" where
  "requested v = (case v of None \<Rightarrow> [] | Some n \<Rightarrow> if n \<noteq> 0 then [n] else [])"

text \<open>
  The specification's condition for the sweep: the record has a \<open>completedAt\<close> and it
  predates \<open>now\<close> minus the retention window, which is the period of the sweep.
\<close>

definition predatesRetention :: "int \<Rightarrow> job \<Rightarrow> bool" where
  "predatesRetention now job =
     (case completedAt job of None \<Rightarrow> False | Some t \<Rightarrow> t < now - sweepPeriodMs)"

section \<open>Concrete inputs\<close>

text \<open>
  An environment in which no call throws and the container prints \<open>2\<close> and exits with
  code \<open>0\<close> before the timer fires, and a job as \<open>POST /run\<close> hands it to \<open>runJob\<close>.
\<close>

definition quietEnv :: env where
  "quietEnv =
     \<lparr>tmpName = js ''/tmp/tmp-1'', dirSync_throws = None, writeFile_throws = None,
      createProxy_throws = None, addToxic_throws = (\<lambda>_. None),
      createContainer_throws = None, attach_throws = None, start_throws = None,
      order = WaitBeforeTimer, captured = js ''2\<newline>'', wait_result = Inr 0,
      kill_throws = None, removeCallback_throws = None\<rparr>"

definition submitted :: "jstring \<Rightarrow> jstring \<Rightarrow> scenario \<Rightarrow> job" where
  "submitted lang src sc =
     \<lparr>job_id = js ''job-1'', status = Running, language = lang, code = src, scenario = sc,
      logs = [(0, js ''Job created and queued.''), (0, js ''Job execution started.'')],
      result = None, createdAt = 0, completedAt = None\<rparr>"

text \<open>
  A store with a job that completed long ago, one cancelled an hour before the sweep at
  \<open>7200000\<close>, and one still running.
\<close>

definition exampleJobs :: jobs where
  "exampleJobs =
     [(js ''old'', (submitted (js ''python'') (js ''print(1)'') emptyScenario)
                     \<lparr>status := Completed, completedAt := Some 1000\<rparr>),
      (js ''recent'', (submitted (js ''python'') (js ''print(2)'') emptyScenario)
                     \<lparr>status := Cancelled, completedAt := Some 3600000\<rparr>),
      (js ''active'', submitted (js ''python'') (js ''print(3)'') emptyScenario)]"

section \<open>Literals and evaluation\<close>

text \<open>The embedding of literals is injective, so literals compare as their texts do.\<close>

lemma unat_of_char: "unat (of_char c :: 16 word) = of_char c"
proof -
  have "(of_char c :: nat) < 65536"
    using nat_of_char_less_256 [of c] by linarith
  then have "unat (of_nat (of_char c) :: 16 word) = of_char c"
    by (simp add: unat_of_nat)
  then show ?thesis by (simp only: of_nat_of_char)
qed

lemma of_char_word_inj: "(of_char c :: 16 word) = of_char d \<longleftrightarrow> c = d"
proof
  assume "(of_char c :: 16 word) = of_char d"
  then have "unat (of_char c :: 16 word) = unat (of_char d :: 16 word)" by simp
  then have "(of_char c :: nat) = of_char d" by (simp only: unat_of_char)
  then show "c = d" by simp
qed simp

lemma js_eq_iff [simp]: "js a = js b \<longleftrightarrow> a = b"
  unfolding js_def by (rule inj_map_eq_map) (simp add: inj_on_def of_char_word_inj)

lemma js_Nil_iff [simp]: "js a = [] \<longleftrightarrow> a = []" "[] = js a \<longleftrightarrow> a = []"
  by (auto simp: js_def)

text \<open>
  The two scanners are unfolded on demand only. \<open>fmt_defs\<close> and \<open>run_defs\<close> evaluate
  \<open>formatOutput\<close> and \<open>runJob\<close> on concrete inputs.
\<close>

declare stripPipWarnings.simps [simp del] matchLogLines.simps [simp del]

lemmas fmt_defs = formatOutput_def js_def stripControl_def pipWarning_def collapseLogLines_def
  logPrefix_def handleTimeout_def timeoutSentinel_def timeoutNotice_def fixJson_def trim_def
  is_white_space_def is_line_terminator_def originKey_def redactedOrigin_def
  substring_from_def substring_to_def replace_first_def
  stripPipWarnings.simps matchLogLines.simps

lemmas run_defs = runJob_def executor_def runPhase_def bind_io_def call_io_def Let_def
  truthyNum_def truthyStr_def emptyScenario_def

lemma formatOutput_two: "formatOutput (js ''2\<newline>'') = js ''2''"
  by (simp add: fmt_defs)

section \<open>Properties of the scenario injection\<close>

text \<open>
  C10. For a language other than \<open>python\<close>, \<open>javascript\<close> and \<open>node\<close>,
  \<open>wrapUserCode\<close> returns the user code unchanged, whatever the scenario sets: every
  fragment is added inside a test of the language, and no branch rejects the language.
\<close>

theorem wrapUserCode_unrecognized_language:
  assumes "lang \<noteq> js ''python''" and "lang \<noteq> js ''javascript''" and "lang \<noteq> js ''node''"
  shows "wrapUserCode src sc lang = src"
  using assms by (simp add: wrapUserCode_def split: option.splits)

theorem wrapUserCode_unrecognized_language_witness:
  "wrapUserCode (js ''puts 1'')
     \<lparr>networkLatencyMs = Some 100, bandwidthKbps = Some 50, timeoutMs = Some 10,
      upstream = Some (js ''example.org:80''), simulateCrash = Some True,
      simulateHighCpu = Some True, simulateMemoryLeak = Some True,
      artificialDelayMs = Some 1500\<rparr> (js ''ruby'') = js ''puts 1''"
  by (rule wrapUserCode_unrecognized_language) (simp_all add: js_def)

text \<open>
  C5, as the code has it. With the empty scenario \<open>wrapUserCode\<close> returns the code
  unchanged, except for Python code that contains \<open>import requests\<close>: there the
  installation prelude is put in front of the code, whatever the scenario.
\<close>

theorem wrapUserCode_empty_scenario:
  "wrapUserCode src emptyScenario lang =
     (if lang = js ''python'' \<and> str_includes src (js ''import requests'')
      then pyInstallRequests @ src else src)"
  by (simp add: wrapUserCode_def emptyScenario_def truthyBool_def)

theorem wrapUserCode_empty_scenario_witness:
  "wrapUserCode (js ''print(1+1)'') emptyScenario (js ''python'') = js ''print(1+1)''"
  using wrapUserCode_empty_scenario [of "js ''print(1+1)''" "js ''python''"]
  by (simp add: js_def)

text \<open>
  C5, as the specification states it, fails: the empty scenario is not the identity on
  the Python program \<open>import requests\<close>.
\<close>

theorem wrapUserCode_identity_counterexample:
  "wrapUserCode (js ''import requests'') emptyScenario (js ''python'') \<noteq> js ''import requests''"
  by (simp add: wrapUserCode_def emptyScenario_def truthyBool_def pyInstallRequests_def js_def)

section \<open>Calls in sequence\<close>

lemma fst_return_io [simp]: "fst (return_io x) = []"
  by (simp add: return_io_def)

lemma fst_call_io [simp]: "fst (call_io c t) = [c]"
  by (simp add: call_io_def)

lemma snd_call_io [simp]: "snd (call_io c t) = (case t of Some m \<Rightarrow> Inl m | None \<Rightarrow> Inr ())"
  by (simp add: call_io_def)

lemma fst_bind_io:
  "fst (bind_io m f) = (case snd m of Inl err \<Rightarrow> fst m | Inr x \<Rightarrow> fst m @ fst (f x))"
  by (cases m) (simp add: bind_io_def split: sum.splits prod.splits)

lemma snd_bind_io:
  "snd (bind_io m f) = (case snd m of Inl err \<Rightarrow> Inl err | Inr x \<Rightarrow> snd (f x))"
  by (cases m) (simp add: bind_io_def split: sum.splits prod.splits)

lemma bind_io_all:
  assumes "\<forall>c\<in>set (fst m). P c" and "\<And>x. \<forall>c\<in>set (fst (f x)). P c"
  shows "\<forall>c\<in>set (fst (bind_io m f)). P c"
  using assms by (auto simp: fst_bind_io split: sum.splits)

lemma bind_io_first: "c \<in> set (fst m) \<Longrightarrow> c \<in> set (fst (bind_io m f))"
  by (simp add: fst_bind_io split: sum.splits)

lemma bind_io_later: "snd m = Inr x \<Longrightarrow> c \<in> set (fst (f x)) \<Longrightarrow> c \<in> set (fst (bind_io m f))"
  by (simp add: fst_bind_io)

lemma addToxicIf_calls:
  "fst (addToxicIf e name ty v) = (case v of None \<Rightarrow> [] | Some n \<Rightarrow> if n \<noteq> 0 then [AddToxic name ty n] else [])"
  by (simp add: addToxicIf_def split: option.splits)

lemma setup_calls: "\<forall>c\<in>set (fst (setupNetworkScenario e jobId sc)). c \<noteq> ContainerWait"
  unfolding setupNetworkScenario_def Let_def
  by (intro bind_io_all) (auto simp: addToxicIf_calls split: option.splits if_splits)

lemma setup_creates_proxy:
  "\<exists>c\<in>set (fst (setupNetworkScenario e jobId sc)). isCreateProxy c"
proof -
  let ?c = "CreateProxy (js ''sandbox_proxy_'' @ jobId) (js ''0.0.0.0:'' @ numberToString 8666)
              (case upstream sc of None \<Rightarrow> js ''httpbin.org:80''
               | Some u \<Rightarrow> if u \<noteq> [] then u else js ''httpbin.org:80'')"
  have "?c \<in> set (fst (setupNetworkScenario e jobId sc))"
    unfolding setupNetworkScenario_def Let_def
    by (rule bind_io_later [where x = "()"], simp, rule bind_io_first, simp)
  moreover have "isCreateProxy ?c" by (simp add: isCreateProxy_def)
  ultimately show ?thesis by blast
qed

lemma setup_toxics:
  assumes "createProxy_throws e = None" and "\<forall>ty. addToxic_throws e ty = None"
  shows "filter isAddToxic (fst (setupNetworkScenario e jobId sc)) =
           map (AddToxic (js ''sandbox_proxy_'' @ jobId) Latency) (requested (networkLatencyMs sc))
         @ map (AddToxic (js ''sandbox_proxy_'' @ jobId) Bandwidth) (requested (bandwidthKbps sc))
         @ map (AddToxic (js ''sandbox_proxy_'' @ jobId) Timeout) (requested (timeoutMs sc))"
proof -
  have ok: "snd (addToxicIf e n ty v) = Inr ()" for n ty v
    using assms(2) by (simp add: addToxicIf_def return_io_def split: option.splits)
  have calls: "filter isAddToxic (fst (addToxicIf e n ty v)) = map (AddToxic n ty) (requested v)" for n ty v
    by (simp add: addToxicIf_calls requested_def isAddToxic_def split: option.splits)
  show ?thesis
    using assms(1)
    by (simp add: setupNetworkScenario_def Let_def fst_bind_io ok calls isAddToxic_def)
qed

section \<open>Symbolic execution of the promise executor\<close>

text \<open>
  What each continuation does to the trace, to \<open>output\<close> and to the promise; then how
  the promise settles in the run phase, and the calls the run phase issues.
\<close>

lemma issue_simps [simp]:
  "trace (issue cs s) = trace s @ cs" "output (issue cs s) = output s"
  "promise (issue cs s) = promise s"
  by (simp_all add: issue_def)

lemma settle_simps [simp]:
  "trace (settle r s) = trace s" "output (settle r s) = output s"
  "promise (settle r s) = Some (case promise s of None \<Rightarrow> r | Some r' \<Rightarrow> r')"
  by (simp_all add: settle_def split: option.splits)

lemma timerFires_simps [simp]:
  "trace (timerFires s) = trace s @ [ContainerKill]" "output (timerFires s) = output s"
  "promise (timerFires s) = promise s"
  by (simp_all add: timerFires_def)

lemma afterKill_simps [simp]:
  "trace (afterKill e s) = trace s"
  "promise (afterKill e s) =
     (case kill_throws e of
        Some m \<Rightarrow> promise s
      | None \<Rightarrow> Some (case promise s of
                       None \<Rightarrow> Resolved (formatOutput (output s @ js ''\<newline>[Timeout]'')) False
                     | Some r \<Rightarrow> r))"
  by (simp_all add: afterKill_def Let_def split: option.splits)

lemma output_afterKill [simp]:
  "output (afterKill e s) =
     (case kill_throws e of Some m \<Rightarrow> output s | None \<Rightarrow> output s @ js ''\<newline>[Timeout]'')"
  by (simp add: afterKill_def Let_def split: option.splits)

lemma afterWait_simps [simp]:
  "trace (afterWait e s) = trace s @ (case wait_result e of Inr _ \<Rightarrow> [ClearTimeout] | Inl _ \<Rightarrow> [])"
  "promise (afterWait e s) =
     Some (case promise s of
             Some r \<Rightarrow> r
           | None \<Rightarrow> (case wait_result e of
                        Inr _ \<Rightarrow> Resolved (formatOutput (output s)) True
                      | Inl m \<Rightarrow> Rejected m))"
  by (simp_all add: afterWait_def split: sum.splits option.splits)

lemma output_afterWait [simp]: "output (afterWait e s) = output s"
  by (simp add: afterWait_def split: sum.splits)

lemma cleanup_simps [simp]:
  "trace (cleanup e proxy s) =
     trace s @ RemoveCallback #
       (case removeCallback_throws e of
          Some m \<Rightarrow> []
        | None \<Rightarrow> (case proxy of None \<Rightarrow> [] | Some name \<Rightarrow> [DeleteProxy name]))"
  "output (cleanup e proxy s) = output s"
  "promise (cleanup e proxy s) = promise s"
  by (simp_all add: cleanup_def cleanupNetworkScenario_def Let_def split: option.splits)

lemma promise_runPhase:
  assumes "promise s0 = None"
  shows "promise (runPhase e proxy s0) =
     Some (if order e = KillBeforeWait \<and> kill_throws e = None
           then Resolved (formatOutput (output s0 @ captured e @ js ''\<newline>[Timeout]'')) False
           else (case wait_result e of
                   Inr statusCode \<Rightarrow> Resolved (formatOutput (output s0 @ captured e)) True
                 | Inl m \<Rightarrow> Rejected m))"
  using assms
  by (cases "order e"; cases "wait_result e"; cases "kill_throws e") (simp_all add: runPhase_def Let_def)

lemma trace_runPhase:
  "trace (runPhase e proxy s0) =
     trace s0 @ [SetTimeout 10000, ContainerWait] @
     (case order e of
        WaitBeforeTimer \<Rightarrow>
          (case wait_result e of
             Inr _ \<Rightarrow> ClearTimeout # trace (cleanup e proxy \<lparr>trace = [], output = [], promise = None\<rparr>)
           | Inl _ \<Rightarrow> trace (cleanup e proxy \<lparr>trace = [], output = [], promise = None\<rparr>) @ [ContainerKill])
      | _ \<Rightarrow>
          ContainerKill #
          (case wait_result e of Inr _ \<Rightarrow> [ClearTimeout] | Inl _ \<Rightarrow> [])
          @ trace (cleanup e proxy \<lparr>trace = [], output = [], promise = None\<rparr>))"
  by (cases "order e"; cases "wait_result e") (simp_all add: runPhase_def Let_def)

text \<open>
  An invocation that has issued \<open>container.wait()\<close> has passed every earlier step
  without a throw and is in the run phase, with the promise still pending.
\<close>

lemma executor_started:
  assumes "ContainerWait \<in> set (trace (executor e i r p proxy s))"
    and "ContainerWait \<notin> set (trace s)"
  shows "\<exists>cs. executor e i r p proxy s = runPhase e proxy (issue cs s)"
  using assms
  by (auto simp: executor_def bind_io_def call_io_def split: option.splits)

lemma runJob_started:
  assumes "ContainerWait \<in> set (trace (runJob e j))"
  shows "\<exists>proxy s0. runJob e j = runPhase e proxy s0 \<and> promise s0 = None \<and> output s0 = []"
proof -
  let ?s = "\<lparr>trace = [DirSync], output = [], promise = None\<rparr>"
  obtain img fname cmd where
    lang: "(if language j = js ''python''
                then Some (js ''python-sandbox:latest'', js ''usercode.py'',
                           [js ''python'', js ''/code/usercode.py''])
                else if language j = js ''javascript'' \<or> language j = js ''node''
                then Some (js ''node:20-slim'', js ''usercode.js'',
                           [js ''node'', js ''/code/usercode.js''])
                else None) = Some (img, fname, cmd)"
    and d: "dirSync_throws e = None" and w: "writeFile_throws e = None"
    using assms by (auto simp: runJob_def Let_def split: option.splits if_splits)
  let ?s1 = "issue [WriteFile (tmpName e) fname (wrapUserCode (code j) (scenario j) (language j))] ?s"
  show ?thesis
  proof (cases "truthyNum (networkLatencyMs (scenario j)) \<or> truthyNum (bandwidthKbps (scenario j))
          \<or> truthyNum (timeoutMs (scenario j)) \<or> truthyStr (upstream (scenario j))")
    case False
    then have eq: "runJob e j = executor e img cmd [] None ?s1"
      using lang d w by (simp add: runJob_def Let_def)
    from executor_started [of e img cmd "[]" None ?s1] assms eq
    obtain cs where "runJob e j = runPhase e None (issue cs ?s1)" by auto
    then show ?thesis by (intro exI [of _ None] exI [of _ "issue cs ?s1"]) simp
  next
    case True
    obtain cs r where su: "setupNetworkScenario e (job_id j) (scenario j) = (cs, r)"
      by (cases "setupNetworkScenario e (job_id j) (scenario j)")
    have nw: "ContainerWait \<notin> set cs"
      using setup_calls [of e "job_id j" "scenario j"] su by auto
    show ?thesis
    proof (cases r)
      case (Inl err)
      then have "trace (runJob e j) = trace ?s1 @ cs"
        using True lang d w su by (simp add: runJob_def Let_def)
      then show ?thesis using assms nw by simp
    next
      case (Inr net)
      let ?env = "[js ''HTTP_PROXY=http://'' @ host net @ js '':'' @ numberToString (port net),
                    js ''HTTPS_PROXY=http://'' @ host net @ js '':'' @ numberToString (port net)]"
      have eq: "runJob e j = executor e img cmd ?env (Some (proxyName net)) (issue cs ?s1)"
        using True lang d w su Inr by (simp add: runJob_def Let_def)
      from executor_started [of e img cmd ?env "Some (proxyName net)" "issue cs ?s1"] assms eq nw
      obtain cs' where "runJob e j = runPhase e (Some (proxyName net)) (issue cs' (issue cs ?s1))"
        by auto
      then show ?thesis
        by (intro exI [of _ "Some (proxyName net)"] exI [of _ "issue cs' (issue cs ?s1)"]) simp
    qed
  qed
qed

lemma executor_trace:
  "\<exists>cs. trace (executor e i r p proxy s) = trace s @ cs
        \<and> (\<forall>c\<in>set cs. \<not> isAddToxic c \<and> \<not> isCreateProxy c)"
proof (cases "createContainer_throws e = None \<and> attach_throws e = None \<and> start_throws e = None")
  case True
  then have "executor e i r p proxy s =
    runPhase e proxy (issue [CreateContainer i r p [tmpName e @ js '':/code:ro''], ContainerAttach, ContainerStart] s)"
    by (simp add: executor_def bind_io_def call_io_def issue_def)
  then show ?thesis
    by (cases "order e"; cases "wait_result e")
       (auto simp: trace_runPhase isAddToxic_def isCreateProxy_def split: option.splits)
next
  case False
  then show ?thesis
    by (auto simp: executor_def bind_io_def call_io_def isAddToxic_def isCreateProxy_def
        split: option.splits)
qed

section \<open>Properties of \<open>runJob\<close>\<close>

text \<open>
  C6, as the code has it. When \<open>tmp.dirSync\<close> succeeds and the language is none of
  \<open>python\<close>, \<open>javascript\<close>, \<open>node\<close>, the only call \<open>runJob\<close> makes is
  \<open>tmp.dirSync\<close>, and the promise is rejected with \<open>Unsupported language\<close>: no file is
  written, no proxy and no container is created, but the temporary directory exists by
  then.
\<close>

theorem runJob_unsupported_language:
  assumes "dirSync_throws e = None"
    and "language j \<noteq> js ''python''" and "language j \<noteq> js ''javascript''"
    and "language j \<noteq> js ''node''"
  shows "trace (runJob e j) = [DirSync]
       \<and> promise (runJob e j) = Some (Rejected (js ''Unsupported language''))"
  using assms by (simp add: runJob_def settle_def)

theorem runJob_unsupported_language_witness:
  "trace (runJob quietEnv (submitted (js ''ruby'') (js ''puts 1'') emptyScenario)) = [DirSync]
   \<and> promise (runJob quietEnv (submitted (js ''ruby'') (js ''puts 1'') emptyScenario))
     = Some (Rejected (js ''Unsupported language''))"
  by (rule runJob_unsupported_language) (simp_all add: quietEnv_def submitted_def js_def)

text \<open>
  C6, as the specification states it, fails: for the language \<open>ruby\<close> the temporary
  directory has been created when the promise is rejected.
\<close>

theorem tmpdir_created_before_language_check:
  "DirSync \<in> set (trace (runJob quietEnv (submitted (js ''ruby'') (js ''puts 1'') emptyScenario)))
   \<and> promise (runJob quietEnv (submitted (js ''ruby'') (js ''puts 1'') emptyScenario))
       = Some (Rejected (js ''Unsupported language''))"
  by (simp add: runJob_def quietEnv_def submitted_def)

text \<open>
  The \<open>finally\<close> block runs once whenever the executor of the promise is entered:
  \<open>tmpDir.removeCallback()\<close> is called exactly once more.
\<close>

lemma executor_cleanup_once:
  "count_list (trace (executor e i r p proxy s)) RemoveCallback
     = count_list (trace s) RemoveCallback + 1"
proof (cases "createContainer_throws e = None \<and> attach_throws e = None \<and> start_throws e = None")
  case True
  then have "executor e i r p proxy s =
    runPhase e proxy (issue [CreateContainer i r p [tmpName e @ js '':/code:ro''], ContainerAttach, ContainerStart] s)"
    by (simp add: executor_def bind_io_def call_io_def issue_def)
  then show ?thesis
    by (cases "order e"; cases "wait_result e")
       (auto simp: trace_runPhase split: option.splits)
next
  case False
  then show ?thesis
    by (auto simp: executor_def bind_io_def call_io_def split: option.splits)
qed

text \<open>
  C1 fails on the exits before the promise is built. For the language \<open>ruby\<close>, for a
  \<open>writeFile\<close> that throws, and for an \<open>addToxic\<close> that throws (the proxy has been
  created by then), the trace ends with the call that failed: neither
  \<open>tmpDir.removeCallback()\<close> nor the \<open>deleteProxy\<close> of the cleanup is ever called.
\<close>

theorem early_throw_skips_cleanup:
  "trace (runJob quietEnv (submitted (js ''ruby'') (js ''puts 1'') emptyScenario)) = [DirSync]
   \<and> promise (runJob quietEnv (submitted (js ''ruby'') (js ''puts 1'') emptyScenario))
       = Some (Rejected (js ''Unsupported language''))
   \<and> trace (runJob (quietEnv\<lparr>writeFile_throws := Some (js ''ENOSPC'')\<rparr>)
                (submitted (js ''python'') (js ''print(1+1)'') emptyScenario))
       = [DirSync, WriteFile (js ''/tmp/tmp-1'') (js ''usercode.py'') (js ''print(1+1)'')]
   \<and> promise (runJob (quietEnv\<lparr>writeFile_throws := Some (js ''ENOSPC'')\<rparr>)
                (submitted (js ''python'') (js ''print(1+1)'') emptyScenario))
       = Some (Rejected (js ''ENOSPC''))
   \<and> trace (runJob (quietEnv\<lparr>addToxic_throws := (\<lambda>_. Some (js ''toxiproxy: error''))\<rparr>)
                (submitted (js ''python'') (js ''print(1+1)'')
                   (emptyScenario\<lparr>networkLatencyMs := Some 200\<rparr>)))
       = [DirSync, WriteFile (js ''/tmp/tmp-1'') (js ''usercode.py'') (js ''print(1+1)''),
          DeleteProxy (js ''sandbox_proxy_job-1''),
          CreateProxy (js ''sandbox_proxy_job-1'') (js ''0.0.0.0:8666'') (js ''httpbin.org:80''),
          AddToxic (js ''sandbox_proxy_job-1'') Latency 200]
   \<and> promise (runJob (quietEnv\<lparr>addToxic_throws := (\<lambda>_. Some (js ''toxiproxy: error''))\<rparr>)
                (submitted (js ''python'') (js ''print(1+1)'')
                   (emptyScenario\<lparr>networkLatencyMs := Some 200\<rparr>)))
       = Some (Rejected (js ''toxiproxy: error''))"
  by (simp add: runJob_def quietEnv_def submitted_def emptyScenario_def wrapUserCode_def
      truthyNum_def truthyStr_def truthyBool_def setupNetworkScenario_def bind_io_def call_io_def
      return_io_def addToxicIf_def numberToString_def digitsOf.simps js_def Let_def)

text \<open>
  C7. When the invocation has got as far as \<open>container.wait()\<close> and that call resolves
  before the timer fires, the promise resolves with the formatted output and
  \<open>success: true\<close>, whatever status code \<open>wait()\<close> resolved with; the outcome has no
  field for the exit code.
\<close>

theorem runJob_natural_exit:
  assumes "ContainerWait \<in> set (trace (runJob e j))"
    and "order e = WaitBeforeTimer" and "wait_result e = Inr statusCode"
  shows "promise (runJob e j) = Some (Resolved (formatOutput (captured e)) True)"
proof -
  from runJob_started [OF assms(1)] obtain proxy s0 where
    "runJob e j = runPhase e proxy s0" "promise s0 = None" "output s0 = []" by blast
  then show ?thesis using assms(2,3) by (simp add: promise_runPhase)
qed

theorem runJob_natural_exit_witness:
  "promise (runJob (quietEnv\<lparr>wait_result := Inr 1\<rparr>)
              (submitted (js ''python'') (js ''print(1+1)'')
                 (emptyScenario\<lparr>simulateCrash := Some True\<rparr>)))
     = Some (Resolved (js ''2'') True)"
proof -
  let ?e = "quietEnv\<lparr>wait_result := Inr 1\<rparr>"
  let ?j = "submitted (js ''python'') (js ''print(1+1)'') (emptyScenario\<lparr>simulateCrash := Some True\<rparr>)"
  have w: "ContainerWait \<in> set (trace (runJob ?e ?j))"
    by (simp add: run_defs quietEnv_def submitted_def)
  have "order ?e = WaitBeforeTimer" and "wait_result ?e = Inr 1" and "captured ?e = js ''2\<newline>''"
    by (simp_all add: quietEnv_def)
  with runJob_natural_exit [OF w, of 1] show ?thesis
    by (simp add: formatOutput_two)
qed

text \<open>
  When the timer fires and \<open>kill()\<close> settles without error before \<open>wait()\<close> does,
  the container is killed, the sentinel is appended and the promise resolves with
  \<open>success: false\<close>.
\<close>

lemma runJob_timeout_kill_first:
  assumes "ContainerWait \<in> set (trace (runJob e j))"
    and "order e = KillBeforeWait" and "kill_throws e = None"
  shows "promise (runJob e j)
           = Some (Resolved (formatOutput (captured e @ js ''\<newline>[Timeout]'')) False)
       \<and> ContainerKill \<in> set (trace (runJob e j))"
proof -
  from runJob_started [OF assms(1)] obtain proxy s0 where
    r: "runJob e j = runPhase e proxy s0" "promise s0 = None" "output s0 = []" by blast
  have "ContainerKill \<in> set (trace (runPhase e proxy s0))"
    using assms(2) by (simp add: trace_runPhase)
  then show ?thesis using r assms(2,3) by (simp add: promise_runPhase)
qed

text \<open>
  When the timer fires and \<open>wait()\<close> settles first (killing the container is what
  makes \<open>wait()\<close> return), the continuation of \<open>wait()\<close> settles the promise with
  \<open>success: true\<close> and without the sentinel; the \<open>resolve\<close> of the timer callback
  comes too late.
\<close>

lemma runJob_timeout_wait_first:
  assumes "ContainerWait \<in> set (trace (runJob e j))"
    and "order e = WaitBeforeKill" and "wait_result e = Inr statusCode"
  shows "promise (runJob e j) = Some (Resolved (formatOutput (captured e)) True)
       \<and> ContainerKill \<in> set (trace (runJob e j))"
proof -
  from runJob_started [OF assms(1)] obtain proxy s0 where
    r: "runJob e j = runPhase e proxy s0" "promise s0 = None" "output s0 = []" by blast
  have "ContainerKill \<in> set (trace (runPhase e proxy s0))"
    using assms(2) by (simp add: trace_runPhase)
  then show ?thesis using r assms(2,3) by (simp add: promise_runPhase)
qed

text \<open>
  When the captured text has log lines, the collapse of the log lines drops the line of
  the sentinel before the timeout notice is looked for.
\<close>

lemma formatOutput_logged_timeout:
  "formatOutput (js ''INFO:root:start\<newline>'' @ js ''\<newline>[Timeout]'') = js ''start''"
  by (simp add: fmt_defs)

text \<open>
  C3 fails on that schedule. A Python program that prints \<open>2\<close> and then spins in a busy
  loop is killed by the timer, and the promise resolves with output \<open>2\<close> and
  \<open>success: true\<close>. And when \<open>kill()\<close> does settle first but the program had logged
  \<open>INFO:root:start\<close>, the promise resolves with \<open>success: false\<close> and an output that
  has neither the sentinel nor the notice.
\<close>

theorem timeout_outcome_lost:
  "promise (runJob (quietEnv\<lparr>order := WaitBeforeKill\<rparr>)
              (submitted (js ''python'') (js ''print(1+1)\<newline>while True: pass'') emptyScenario))
     = Some (Resolved (js ''2'') True)
   \<and> ContainerKill \<in> set (trace (runJob (quietEnv\<lparr>order := WaitBeforeKill\<rparr>)
              (submitted (js ''python'') (js ''print(1+1)\<newline>while True: pass'') emptyScenario)))
   \<and> promise (runJob (quietEnv\<lparr>order := KillBeforeWait, captured := js ''INFO:root:start\<newline>''\<rparr>)
              (submitted (js ''python'') (js ''import logging'') emptyScenario))
     = Some (Resolved (js ''start'') False)
   \<and> \<not> str_includes (js ''start'') timeoutSentinel"
  by (simp add: run_defs quietEnv_def submitted_def formatOutput_two formatOutput_logged_timeout)
     (simp add: js_def timeoutSentinel_def)

text \<open>
  C9. For a job whose language is recognized, and when \<open>tmp.dirSync\<close> and
  \<open>fs.writeFile\<close> succeed: \<open>createProxy\<close> is called exactly when one of
  \<open>networkLatencyMs\<close>, \<open>bandwidthKbps\<close>, \<open>timeoutMs\<close>, \<open>upstream\<close> is set (to
  a value other than \<open>0\<close> or the empty string); and, when no Toxiproxy call throws, the
  toxics added are the latency, bandwidth and timeout toxics in this order, each one
  present exactly when its own field is set, with the field's value.
\<close>

theorem proxy_provisioning:
  assumes "dirSync_throws e = None" and "writeFile_throws e = None"
    and "language j = js ''python'' \<or> language j = js ''javascript'' \<or> language j = js ''node''"
  shows "((\<exists>c\<in>set (trace (runJob e j)). isCreateProxy c) \<longleftrightarrow>
            truthyNum (networkLatencyMs (scenario j)) \<or> truthyNum (bandwidthKbps (scenario j))
            \<or> truthyNum (timeoutMs (scenario j)) \<or> truthyStr (upstream (scenario j)))
       \<and> (createProxy_throws e = None \<and> (\<forall>ty. addToxic_throws e ty = None) \<longrightarrow>
            filter isAddToxic (trace (runJob e j)) =
              map (AddToxic (js ''sandbox_proxy_'' @ job_id j) Latency)
                  (requested (networkLatencyMs (scenario j)))
            @ map (AddToxic (js ''sandbox_proxy_'' @ job_id j) Bandwidth)
                  (requested (bandwidthKbps (scenario j)))
            @ map (AddToxic (js ''sandbox_proxy_'' @ job_id j) Timeout)
                  (requested (timeoutMs (scenario j))))"
proof -
  let ?needs = "truthyNum (networkLatencyMs (scenario j)) \<or> truthyNum (bandwidthKbps (scenario j))
            \<or> truthyNum (timeoutMs (scenario j)) \<or> truthyStr (upstream (scenario j))"
  obtain img fname cmd where
    lang: "(if language j = js ''python''
                then Some (js ''python-sandbox:latest'', js ''usercode.py'',
                           [js ''python'', js ''/code/usercode.py''])
                else if language j = js ''javascript'' \<or> language j = js ''node''
                then Some (js ''node:20-slim'', js ''usercode.js'',
                           [js ''node'', js ''/code/usercode.js''])
                else None) = Some (img, fname, cmd)"
    using assms(3) by (auto split: if_splits)
  let ?s1 = "issue [WriteFile (tmpName e) fname (wrapUserCode (code j) (scenario j) (language j))]
               \<lparr>trace = [DirSync], output = [], promise = None\<rparr>"
  let ?provision = "setupNetworkScenario e (job_id j) (scenario j)"
  have s1: "trace ?s1 = [DirSync, WriteFile (tmpName e) fname (wrapUserCode (code j) (scenario j) (language j))]"
    by simp
  show ?thesis
  proof (cases ?needs)
    case False
    then have eq: "runJob e j = executor e img cmd [] None ?s1"
      using lang assms(1,2) by (simp add: runJob_def Let_def)
    obtain cs where cs: "trace (runJob e j) = trace ?s1 @ cs"
      "\<forall>c\<in>set cs. \<not> isAddToxic c \<and> \<not> isCreateProxy c"
      using executor_trace [of e img cmd "[]" None ?s1] eq by auto
    have none: "requested (networkLatencyMs (scenario j)) = []"
      "requested (bandwidthKbps (scenario j)) = []" "requested (timeoutMs (scenario j)) = []"
      using False by (auto simp: requested_def truthyNum_def split: option.splits)
    have "filter isAddToxic (trace (runJob e j)) = []"
      using cs by (auto simp: filter_empty_conv isAddToxic_def)
    moreover have "\<not> (\<exists>c\<in>set (trace (runJob e j)). isCreateProxy c)"
      using cs by (auto simp: isCreateProxy_def)
    ultimately show ?thesis using False none by simp
  next
    case True
    obtain cs r where su: "?provision = (cs, r)" by (cases ?provision)
    have ex: "\<exists>cs'. trace (runJob e j) = trace ?s1 @ cs @ cs' \<and> (\<forall>c\<in>set cs'. \<not> isAddToxic c)"
    proof (cases r)
      case (Inl err)
      then have "trace (runJob e j) = trace ?s1 @ cs"
        using True lang assms(1,2) su by (simp add: runJob_def Let_def)
      then show ?thesis by simp
    next
      case (Inr net)
      let ?env = "[js ''HTTP_PROXY=http://'' @ host net @ js '':'' @ numberToString (port net),
                    js ''HTTPS_PROXY=http://'' @ host net @ js '':'' @ numberToString (port net)]"
      have eq: "runJob e j = executor e img cmd ?env (Some (proxyName net)) (issue cs ?s1)"
        using True lang assms(1,2) su Inr by (simp add: runJob_def Let_def)
      show ?thesis
        using executor_trace [of e img cmd ?env "Some (proxyName net)" "issue cs ?s1"] eq by auto
    qed
    then obtain cs' where tr: "trace (runJob e j) = trace ?s1 @ cs @ cs'"
      and cs': "\<forall>c\<in>set cs'. \<not> isAddToxic c" by blast
    have "\<exists>c\<in>set cs. isCreateProxy c"
      using setup_creates_proxy [of e "job_id j" "scenario j"] su by simp
    then have a: "\<exists>c\<in>set (trace (runJob e j)). isCreateProxy c" using tr by auto
    have "filter isAddToxic (trace (runJob e j)) = filter isAddToxic cs"
      using tr cs' by (simp add: isAddToxic_def filter_empty_conv)
    then show ?thesis
      using a True setup_toxics [of e "job_id j" "scenario j"] su by auto
  qed
qed

theorem proxy_provisioning_witness:
  "(\<exists>c\<in>set (trace (runJob quietEnv (submitted (js ''python'') (js ''print(1+1)'')
        (emptyScenario\<lparr>networkLatencyMs := Some 200, bandwidthKbps := Some 0,
                         timeoutMs := Some 5000\<rparr>)))). isCreateProxy c)
   \<and> filter isAddToxic (trace (runJob quietEnv (submitted (js ''python'') (js ''print(1+1)'')
        (emptyScenario\<lparr>networkLatencyMs := Some 200, bandwidthKbps := Some 0,
                         timeoutMs := Some 5000\<rparr>))))
     = [AddToxic (js ''sandbox_proxy_job-1'') Latency 200,
        AddToxic (js ''sandbox_proxy_job-1'') Timeout 5000]"
  using proxy_provisioning [of quietEnv "submitted (js ''python'') (js ''print(1+1)'')
        (emptyScenario\<lparr>networkLatencyMs := Some 200, bandwidthKbps := Some 0,
                         timeoutMs := Some 5000\<rparr>)"]
  by (simp add: quietEnv_def submitted_def emptyScenario_def truthyNum_def requested_def js_def)

section \<open>Properties of the job store\<close>

text \<open>
  C2 fails. A job is submitted, cancelled while it runs, and then its promise settles:
  the status goes from \<open>cancelled\<close> to \<open>completed\<close> (to \<open>failed\<close> when the promise
  is rejected) and \<open>completedAt\<close> is overwritten.
\<close>

theorem cancelled_job_overwritten:
  "(let jobs1 = snd (post_run 0 (js ''job-1'') (Some (js ''python''))
                       (Some (js ''print(1+1)'')) (Some emptyScenario) []);
        jobs2 = snd (cancel 5000 (js ''job-1'') jobs1);
        jobs3 = flowSettled 9000 (js ''job-1'') (Resolved (js ''2'') True) jobs2;
        jobs3' = flowSettled 9000 (js ''job-1'') (Rejected (js ''No such image'')) jobs2
    in map_option status (map_of jobs1 (js ''job-1'')) = Some Running
     \<and> map_option status (map_of jobs2 (js ''job-1'')) = Some Cancelled
     \<and> map_option completedAt (map_of jobs2 (js ''job-1'')) = Some (Some 5000)
     \<and> map_option status (map_of jobs3 (js ''job-1'')) = Some Completed
     \<and> map_option completedAt (map_of jobs3 (js ''job-1'')) = Some (Some 9000)
     \<and> map_option status (map_of jobs3' (js ''job-1'')) = Some Failed)"
  by (simp add: post_run_def cancel_def flowSettled_def modifyJob_def addJobLog_def Let_def)

lemma map_of_sweepOne:
  "map_of (sweepOne now k jobs) k' =
     (if k' = k then (case map_of jobs k of
                        None \<Rightarrow> None
                      | Some job \<Rightarrow> if predatesRetention now job then None else Some job)
      else map_of jobs k')"
  by (auto simp: sweepOne_def predatesRetention_def sweepPeriodMs_def delete_conv
      split: option.splits)

lemma map_of_fold_sweepOne:
  "map_of (fold (sweepOne now) ks jobs) k =
     (if k \<in> set ks then (case map_of jobs k of
                        None \<Rightarrow> None
                      | Some job \<Rightarrow> if predatesRetention now job then None else Some job)
      else map_of jobs k)"
proof (induction ks arbitrary: jobs)
  case Nil
  then show ?case by simp
next
  case (Cons a ks)
  show ?case
    by (simp add: Cons.IH map_of_sweepOne split: option.splits)
qed

text \<open>
  C8. After a sweep at time \<open>now\<close> the store holds exactly the records it held before
  except those whose \<open>completedAt\<close> predates \<open>now\<close> minus the retention window; a
  record without \<open>completedAt\<close> stays. The retention window is the period of the sweep,
  one hour.
\<close>

theorem sweep_deletes_expired:
  "map_of (sweep now jobs) jobId =
     (case map_of jobs jobId of
        None \<Rightarrow> None
      | Some job \<Rightarrow> if predatesRetention now job then None else Some job)
   \<and> sweepPeriodMs = 60 * 60 * 1000"
proof (cases "jobId \<in> set (map fst jobs)")
  case True
  then show ?thesis by (simp add: sweep_def map_of_fold_sweepOne sweepPeriodMs_def)
next
  case False
  then have "map_of jobs jobId = None" by (simp add: map_of_eq_None_iff)
  then show ?thesis using False by (simp add: sweep_def map_of_fold_sweepOne sweepPeriodMs_def)
qed

theorem sweep_deletes_expired_witness:
  "map_of (sweep 7200000 exampleJobs) (js ''old'') = None
   \<and> map_of (sweep 7200000 exampleJobs) (js ''recent'') = map_of exampleJobs (js ''recent'')
   \<and> map_of (sweep 7200000 exampleJobs) (js ''active'') = map_of exampleJobs (js ''active'')
   \<and> map_of exampleJobs (js ''old'') \<noteq> None"
  using sweep_deletes_expired [of 7200000 exampleJobs "js ''old''"]
    sweep_deletes_expired [of 7200000 exampleJobs "js ''recent''"]
    sweep_deletes_expired [of 7200000 exampleJobs "js ''active''"]
  by (simp add: exampleJobs_def submitted_def predatesRetention_def sweepPeriodMs_def)

section \<open>Properties of the output formatting\<close>

subsection \<open>Searching\<close>

lemma str_includes_sublist: "str_includes s p \<longleftrightarrow> sublist p s"
  by (induction s) (simp_all add: sublist_Cons_right)

lemma str_includes_single: "str_includes s [c] \<longleftrightarrow> c \<in> set s"
  by (induction s) auto

lemma str_includes_append: "str_includes s p \<Longrightarrow> str_includes (s @ w) p"
  unfolding str_includes_sublist by (metis sublist_order.order_trans sublist_append_rightI)

lemma indexOf_single:
  "c \<in> set s \<Longrightarrow> indexOf s [c] = int (length (takeWhile (\<lambda>d. d \<noteq> c) s))"
  by (induction s) (auto simp: Let_def)

lemma substring_from_single:
  "c \<in> set s \<Longrightarrow> substring_from s (indexOf s [c]) = dropWhile (\<lambda>d. d \<noteq> c) s"
  by (simp add: substring_from_def indexOf_single dropWhile_eq_drop)

subsection \<open>Trimming\<close>

lemma trim_ends:
  assumes "trim s \<noteq> []"
  shows "\<not> is_white_space (hd (trim s))" and "\<not> is_white_space (last (trim s))"
proof -
  let ?a = "dropWhile is_white_space s"
  let ?b = "dropWhile is_white_space (rev ?a)"
  have b: "?b \<noteq> []" using assms by (simp add: trim_def)
  have a: "?a \<noteq> []"
  proof
    assume "?a = []"
    then have "?b = []" by (simp only: rev.simps dropWhile.simps)
    with b show False by contradiction
  qed
  have "last (trim s) = hd ?b" using b by (simp add: trim_def last_rev)
  then show "\<not> is_white_space (last (trim s))" using hd_dropWhile [OF b] by simp
  have "rev ?a = takeWhile is_white_space (rev ?a) @ ?b" by simp
  then have "last (rev ?a) = last ?b" using b by (metis last_appendR)
  then have "hd (trim s) = hd ?a" using a b by (simp add: trim_def hd_rev last_rev)
  then show "\<not> is_white_space (hd (trim s))" using hd_dropWhile [OF a] by simp
qed

lemma trim_fixed:
  assumes "t = [] \<or> (\<not> is_white_space (hd t) \<and> \<not> is_white_space (last t))"
  shows "trim t = t"
proof (cases "t = []")
  case True
  then show ?thesis by (simp add: trim_def)
next
  case False
  then have h: "\<not> is_white_space (hd t)" and l: "\<not> is_white_space (last t)" using assms by auto
  have 1: "dropWhile is_white_space t = t" using h by (simp add: dropWhile_eq_self_iff)
  have "hd (rev t) = last t" using False by (simp add: hd_rev)
  then have 2: "dropWhile is_white_space (rev t) = rev t" using l by (simp add: dropWhile_eq_self_iff)
  show ?thesis by (simp add: trim_def 1 2)
qed

lemma trim_idem: "trim (trim s) = trim s"
  using trim_ends [of s] by (intro trim_fixed) blast

lemma set_trim: "set (trim s) \<subseteq> set s"
  by (auto simp: trim_def dest!: set_dropWhileD)

lemma trim_decomp: "\<exists>u w. s = u @ trim s @ w \<and> (\<forall>c\<in>set u. is_white_space c) \<and> (\<forall>c\<in>set w. is_white_space c)"
proof -
  let ?a = "dropWhile is_white_space s"
  let ?u = "takeWhile is_white_space s"
  let ?w = "rev (takeWhile is_white_space (rev ?a))"
  have "?a = rev (rev ?a)" by (simp only: rev_rev_ident)
  also have "\<dots> = rev (takeWhile is_white_space (rev ?a) @ dropWhile is_white_space (rev ?a))"
    by (simp only: takeWhile_dropWhile_id)
  also have "\<dots> = trim s @ ?w" by (simp only: rev_append trim_def)
  finally have "?a = trim s @ ?w" .
  then have "s = ?u @ trim s @ ?w" by (metis takeWhile_dropWhile_id)
  moreover have "\<forall>c\<in>set ?u. is_white_space c" by (auto dest: set_takeWhileD)
  moreover have "\<forall>c\<in>set ?w. is_white_space c" by (auto dest: set_takeWhileD)
  ultimately show ?thesis by blast
qed

lemma mem_trim: "c \<in> set s \<Longrightarrow> \<not> is_white_space c \<Longrightarrow> c \<in> set (trim s)"
  using trim_decomp [of s] by (metis Un_iff set_append)

subsection \<open>The code units of the formatted text\<close>

lemma stripPipWarnings_step:
  "stripPipWarnings (c # cs) = c # stripPipWarnings cs
   \<or> (\<exists>rest. dropWhile (\<lambda>d. \<not> is_line_terminator d) (drop (length pipWarning) (c # cs))
                 = 0x0A # rest
             \<and> prefix pipWarning (c # cs)
             \<and> stripPipWarnings (c # cs) = stripPipWarnings rest)"
proof (cases "prefix pipWarning (c # cs)")
  case False
  then have "stripPipWarnings (c # cs) = c # stripPipWarnings cs"
    by (simp only: stripPipWarnings.simps if_False)
  then show ?thesis by (rule disjI1)
next
  case True
  let ?d = "dropWhile (\<lambda>d. \<not> is_line_terminator d) (drop (length pipWarning) (c # cs))"
  have eq: "stripPipWarnings (c # cs) =
       (case ?d of [] \<Rightarrow> c # stripPipWarnings cs
        | t # rest \<Rightarrow> if t = 0x0A then stripPipWarnings rest else c # stripPipWarnings cs)"
    using True by (simp only: stripPipWarnings.simps if_True)
  show ?thesis
  proof (cases ?d)
    case Nil
    have "stripPipWarnings (c # cs) = c # stripPipWarnings cs"
      by (simp only: eq Nil list.case)
    then show ?thesis by (rule disjI1)
  next
    case (Cons t rest)
    show ?thesis
    proof (cases "t = 0x0A")
      case False
      then have "stripPipWarnings (c # cs) = c # stripPipWarnings cs"
        by (simp only: eq Cons list.case if_False)
      then show ?thesis by (rule disjI1)
    next
      case t: True
      have "stripPipWarnings (c # cs) = stripPipWarnings rest"
        using eq by (simp add: Cons t)
      then show ?thesis using Cons t True by blast
    qed
  qed
qed

lemma stripPipWarnings_rest_shorter:
  assumes "dropWhile (\<lambda>d. \<not> is_line_terminator d) (drop (length pipWarning) (c # cs)) = t # rest"
  shows "length rest < length (c # cs)" and "set rest \<subseteq> set (c # cs)"
proof -
  have "length (t # rest) \<le> length (drop (length pipWarning) (c # cs))"
    by (metis assms length_dropWhile_le)
  then show "length rest < length (c # cs)" by simp
  have "set (t # rest) \<subseteq> set (c # cs)"
    by (metis assms set_dropWhileD set_drop_subset subsetI subset_trans)
  then show "set rest \<subseteq> set (c # cs)" by auto
qed

lemma set_stripPipWarnings: "set (stripPipWarnings s) \<subseteq> set s"
proof (induction "length s" arbitrary: s rule: less_induct)
  case less
  show ?case
  proof (cases s)
    case Nil
    then show ?thesis by (simp add: stripPipWarnings.simps)
  next
    case (Cons c cs)
    from stripPipWarnings_step [of c cs] show ?thesis
    proof (elim disjE exE conjE)
      assume "stripPipWarnings (c # cs) = c # stripPipWarnings cs"
      moreover have "set (stripPipWarnings cs) \<subseteq> set cs" using less [of cs] Cons by simp
      ultimately show ?thesis using Cons by auto
    next
      fix rest
      assume d: "dropWhile (\<lambda>d. \<not> is_line_terminator d) (drop (length pipWarning) (c # cs)) = 0x0A # rest"
        and eq: "stripPipWarnings (c # cs) = stripPipWarnings rest"
      have "set (stripPipWarnings rest) \<subseteq> set rest"
        using less [of rest] stripPipWarnings_rest_shorter(1) [OF d] Cons by simp
      then show ?thesis using eq stripPipWarnings_rest_shorter(2) [OF d] Cons by auto
    qed
  qed
qed

lemma set_matchLogLines: "l \<in> set (matchLogLines s) \<Longrightarrow> set l \<subseteq> set s"
proof (induction s arbitrary: l rule: matchLogLines.induct)
  case 1
  then show ?case by (simp add: matchLogLines.simps)
next
  case (2 c cs)
  show ?case
  proof (cases "prefix logPrefix (c # cs)")
    case False
    then show ?thesis using 2 by (auto simp: matchLogLines.simps)
  next
    case True
    then have "l = takeWhile (\<lambda>d. \<not> is_line_terminator d) (c # cs)
        \<or> l \<in> set (matchLogLines (dropWhile (\<lambda>d. \<not> is_line_terminator d) (c # cs)))"
      using 2(3) by (simp add: matchLogLines.simps)
    then show ?thesis
    proof
      assume "l = takeWhile (\<lambda>d. \<not> is_line_terminator d) (c # cs)"
      then show ?thesis by (metis set_takeWhileD subsetI)
    next
      assume "l \<in> set (matchLogLines (dropWhile (\<lambda>d. \<not> is_line_terminator d) (c # cs)))"
      then have "set l \<subseteq> set (dropWhile (\<lambda>d. \<not> is_line_terminator d) (c # cs))"
        using 2(1) True by blast
      then show ?thesis by (meson set_dropWhileD subset_iff)
    qed
  qed
qed

lemma set_replace_first_empty: "set (replace_first s p []) \<subseteq> set s"
  by (auto simp: replace_first_def substring_to_def substring_from_def Let_def
      dest: in_set_takeD in_set_dropD)

lemma set_join: "set (join sep ls) \<subseteq> set sep \<union> (\<Union>l\<in>set ls. set l)"
  by (induction sep ls rule: join.induct) auto

lemma set_collapseLogLines: "set (collapseLogLines s) \<subseteq> insert 0x0A (set s)"
proof (cases "matchLogLines s = []")
  case True
  then show ?thesis by (auto simp: collapseLogLines_def)
next
  case False
  have "set (join [0x0A] (map (\<lambda>line. replace_first line logPrefix []) (matchLogLines s)))
          \<subseteq> insert 0x0A (set s)"
  proof
    fix c
    assume "c \<in> set (join [0x0A] (map (\<lambda>line. replace_first line logPrefix []) (matchLogLines s)))"
    then have "c = 0x0A \<or> (\<exists>l\<in>set (matchLogLines s). c \<in> set (replace_first l logPrefix []))"
      using set_join [of "[0x0A]" "map (\<lambda>line. replace_first line logPrefix []) (matchLogLines s)"]
      by auto
    then show "c \<in> insert 0x0A (set s)"
      using set_replace_first_empty set_matchLogLines by blast
  qed
  then show ?thesis using False by (simp add: collapseLogLines_def)
qed

lemma set_handleTimeout: "set (handleTimeout s) \<subseteq> set timeoutNotice \<union> set s"
  by (auto simp: handleTimeout_def)

lemma set_fixJson: "set (fixJson s) \<subseteq> set s \<union> set redactedOrigin"
  by (auto simp: fixJson_def substring_to_def Let_def dest: in_set_takeD)

lemma formatOutput_no_control:
  "set (formatOutput x) \<subseteq> {c. \<not> (c = 0x01 \<or> c = 0x02 \<or> c = 0x00)}"
proof -
  let ?ok = "{c::16 word. \<not> (c = 0x01 \<or> c = 0x02 \<or> c = 0x00)}"
  let ?s1 = "stripControl x"
  let ?s2 = "stripPipWarnings ?s1"
  let ?s3 = "collapseLogLines ?s2"
  let ?s4 = "handleTimeout ?s3"
  let ?s5 = "fixJson ?s4"
  have 1: "set ?s1 \<subseteq> ?ok" by (auto simp: stripControl_def)
  have 2: "set ?s2 \<subseteq> ?ok" by (rule subset_trans [OF set_stripPipWarnings 1])
  have "insert 0x0A (set ?s2) \<subseteq> ?ok" using 2 by simp
  then have 3: "set ?s3 \<subseteq> ?ok" by (rule subset_trans [OF set_collapseLogLines])
  have "set timeoutNotice \<subseteq> ?ok" by (simp add: timeoutNotice_def js_def)
  then have "set timeoutNotice \<union> set ?s3 \<subseteq> ?ok" using 3 by (rule Un_least)
  then have 4: "set ?s4 \<subseteq> ?ok" by (rule subset_trans [OF set_handleTimeout])
  have "set redactedOrigin \<subseteq> ?ok" by (simp add: redactedOrigin_def js_def)
  with 4 have "set ?s4 \<union> set redactedOrigin \<subseteq> ?ok" by (rule Un_least)
  then have 5: "set ?s5 \<subseteq> ?ok" by (rule subset_trans [OF set_fixJson])
  have "set (trim ?s5) \<subseteq> ?ok" by (rule subset_trans [OF set_trim 5])
  then show ?thesis by (simp only: formatOutput_def)
qed

lemma stripControl_formatOutput: "stripControl (formatOutput x) = formatOutput x"
  unfolding stripControl_def
proof (rule filter_True, rule ballI)
  fix c assume "c \<in> set (formatOutput x)"
  with formatOutput_no_control [of x]
  have "c \<in> {c. \<not> (c = 0x01 \<or> c = 0x02 \<or> c = 0x00)}" by (rule subsetD)
  then show "\<not> (c = 0x01 \<or> c = 0x02 \<or> c = 0x00)" by (rule CollectD)
qed

subsection \<open>Redaction\<close>

lemma js_braces: "js ''{'' = [0x7B]" "js ''}'' = [0x7D]"
  by (simp_all add: js_def)

lemma fixJson_alt:
  "fixJson s =
     (if 0x7B \<in> set s \<and> 0x7D \<notin> set s \<and> str_includes (dropWhile (\<lambda>d. d \<noteq> 0x7B) s) originKey
      then takeWhile (\<lambda>d. d \<noteq> 0x7B) s @ redactedOrigin else s)"
proof (cases "0x7B \<in> set s")
  case False
  then have "\<not> str_includes s (js ''{'')" by (simp add: js_braces str_includes_single)
  then have "fixJson s = s" by (simp add: fixJson_def)
  then show ?thesis using False by simp
next
  case True
  have a: "str_includes s (js ''{'')" using True by (simp add: js_braces str_includes_single)
  have b: "str_includes s (js ''}'') \<longleftrightarrow> 0x7D \<in> set s" by (simp add: js_braces str_includes_single)
  have c: "indexOf s (js ''{'') \<ge> 0" using True by (simp add: js_braces indexOf_single)
  have d: "substring_from s (indexOf s (js ''{'')) = dropWhile (\<lambda>d. d \<noteq> 0x7B) s"
    using True by (simp add: js_braces substring_from_single)
  have "take (length (takeWhile (\<lambda>d. d \<noteq> 0x7B) s)) s = takeWhile (\<lambda>d. d \<noteq> 0x7B) s"
    by (rule takeWhile_eq_take [symmetric])
  then have e: "substring_to s (indexOf s (js ''{'')) = takeWhile (\<lambda>d. d \<noteq> 0x7B) s"
    using True by (simp add: js_braces substring_to_def indexOf_single)
  have "fixJson s =
     (if 0x7D \<notin> set s
      then (if str_includes (dropWhile (\<lambda>d. d \<noteq> 0x7B) s) originKey
            then takeWhile (\<lambda>d. d \<noteq> 0x7B) s @ redactedOrigin else s)
      else s)"
    unfolding fixJson_def Let_def by (simp only: a b c d e simp_thms if_True)
  then show ?thesis using True by simp
qed

lemma brace_not_white: "\<not> is_white_space 0x7B" "\<not> is_white_space 0x7D"
  by (simp_all add: is_white_space_def is_line_terminator_def)

lemma fixJson_trim_fixJson: "fixJson (trim (fixJson z)) = trim (fixJson z)"
proof (cases "0x7B \<in> set z \<and> 0x7D \<notin> set z \<and> str_includes (dropWhile (\<lambda>d. d \<noteq> 0x7B) z) originKey")
  case True
  then have "fixJson z = takeWhile (\<lambda>d. d \<noteq> 0x7B) z @ redactedOrigin"
    by (simp add: fixJson_alt)
  moreover have "0x7D \<in> set redactedOrigin" by (simp add: redactedOrigin_def js_def)
  ultimately have "0x7D \<in> set (fixJson z)" by simp
  then have "0x7D \<in> set (trim (fixJson z))" using mem_trim brace_not_white(2) by blast
  then show ?thesis by (simp add: fixJson_alt [of "trim (fixJson z)"])
next
  case False
  then have z: "fixJson z = z" by (simp only: fixJson_alt if_False)
  have "\<not> (0x7B \<in> set (trim z) \<and> 0x7D \<notin> set (trim z)
           \<and> str_includes (dropWhile (\<lambda>d. d \<noteq> 0x7B) (trim z)) originKey)"
  proof
    assume a: "0x7B \<in> set (trim z) \<and> 0x7D \<notin> set (trim z)
           \<and> str_includes (dropWhile (\<lambda>d. d \<noteq> 0x7B) (trim z)) originKey"
    then have 1: "0x7B \<in> set z" using set_trim by blast
    have 2: "0x7D \<notin> set z" using a mem_trim brace_not_white(2) by blast
    obtain u w where d: "z = u @ trim z @ w" and u: "\<forall>c\<in>set u. is_white_space c"
      using trim_decomp [of z] by blast
    have "\<forall>c\<in>set u. c \<noteq> 0x7B" using u brace_not_white(1) by blast
    then have "dropWhile (\<lambda>d. d \<noteq> 0x7B) (u @ trim z @ w) = dropWhile (\<lambda>d. d \<noteq> 0x7B) (trim z @ w)"
      by simp
    also have "\<dots> = dropWhile (\<lambda>d. d \<noteq> 0x7B) (trim z) @ w"
      by (rule dropWhile_append1 [of "0x7B"]) (use a in simp_all)
    finally have "dropWhile (\<lambda>d. d \<noteq> 0x7B) z = dropWhile (\<lambda>d. d \<noteq> 0x7B) (trim z) @ w"
      using d by simp
    then have "str_includes (dropWhile (\<lambda>d. d \<noteq> 0x7B) z) originKey"
      using a str_includes_append by simp
    then show False using False 1 2 by simp
  qed
  then have "fixJson (trim z) = trim z" by (simp only: fixJson_alt if_False)
  then show ?thesis using z by simp
qed

subsection \<open>Steps that find nothing to do\<close>

lemma stripPipWarnings_noop: "\<not> str_includes s pipWarning \<Longrightarrow> stripPipWarnings s = s"
  by (induction s) (simp_all add: stripPipWarnings.simps)

lemma matchLogLines_noop: "\<not> str_includes s logPrefix \<Longrightarrow> matchLogLines s = []"
  by (induction s) (simp_all add: matchLogLines.simps)

lemma collapseLogLines_noop: "\<not> str_includes s logPrefix \<Longrightarrow> collapseLogLines s = s"
  by (simp add: collapseLogLines_def matchLogLines_noop)

lemma handleTimeout_noop: "\<not> str_includes s timeoutSentinel \<Longrightarrow> handleTimeout s = s"
  by (simp add: handleTimeout_def)

text \<open>
  C4, as the code has it. On a formatted text, stripping the control characters,
  redacting truncated JSON and trimming change nothing. Removing the pip warning,
  collapsing the log lines and prepending the timeout notice change nothing when the
  formatted text does not contain, respectively, the pip warning, the prefix
  \<open>INFO:root:\<close> and the sentinel \<open>[Timeout]\<close>; and when it contains none of the
  three, formatting it again returns it unchanged.
\<close>

theorem formatOutput_reapplied:
  "stripControl (formatOutput x) = formatOutput x
   \<and> fixJson (formatOutput x) = formatOutput x
   \<and> trim (formatOutput x) = formatOutput x
   \<and> (\<not> str_includes (formatOutput x) pipWarning \<longrightarrow>
        stripPipWarnings (formatOutput x) = formatOutput x)
   \<and> (\<not> str_includes (formatOutput x) logPrefix \<longrightarrow>
        collapseLogLines (formatOutput x) = formatOutput x)
   \<and> (\<not> str_includes (formatOutput x) timeoutSentinel \<longrightarrow>
        handleTimeout (formatOutput x) = formatOutput x)
   \<and> (\<not> str_includes (formatOutput x) pipWarning \<and> \<not> str_includes (formatOutput x) logPrefix
      \<and> \<not> str_includes (formatOutput x) timeoutSentinel \<longrightarrow>
        formatOutput (formatOutput x) = formatOutput x)"
proof -
  let ?y = "formatOutput x"
  have c: "stripControl ?y = ?y" by (rule stripControl_formatOutput)
  have j: "fixJson ?y = ?y" unfolding formatOutput_def by (rule fixJson_trim_fixJson)
  have t: "trim ?y = ?y" unfolding formatOutput_def by (rule trim_idem)
  have all: "formatOutput ?y = ?y"
    if "\<not> str_includes ?y pipWarning" "\<not> str_includes ?y logPrefix"
       "\<not> str_includes ?y timeoutSentinel"
  proof -
    have "formatOutput ?y = trim (fixJson (handleTimeout (collapseLogLines (stripPipWarnings (stripControl ?y)))))"
      by (simp only: formatOutput_def)
    also have "\<dots> = trim (fixJson ?y)"
      by (simp only: c stripPipWarnings_noop [OF that(1)] collapseLogLines_noop [OF that(2)]
          handleTimeout_noop [OF that(3)])
    also have "\<dots> = ?y" by (simp only: j t)
    finally show ?thesis .
  qed
  show ?thesis
    using c j t all stripPipWarnings_noop collapseLogLines_noop handleTimeout_noop by blast
qed

theorem formatOutput_reapplied_witness:
  "formatOutput (formatOutput (js ''2\<newline>'')) = formatOutput (js ''2\<newline>'')
   \<and> formatOutput (js ''2\<newline>'') = js ''2''"
  using formatOutput_reapplied [of "js ''2\<newline>''"]
  by (simp add: formatOutput_two)
     (simp add: js_def pipWarning_def logPrefix_def timeoutSentinel_def)

text \<open>
  C4, as the specification states it, fails: a text with the sentinel gets the timeout
  notice once more each time it is formatted.
\<close>

theorem formatOutput_not_idempotent:
  "formatOutput (formatOutput (js ''[Timeout]'')) \<noteq> formatOutput (js ''[Timeout]'')"
  by (simp add: formatOutput_def js_def stripControl_def pipWarning_def collapseLogLines_def
      logPrefix_def handleTimeout_def timeoutSentinel_def timeoutNotice_def fixJson_def trim_def
      is_white_space_def is_line_terminator_def stripPipWarnings.simps matchLogLines.simps)

end
